theory Spec2Isabelle
  imports Complex_Main
begin

section \<open>Signed distance field evaluator of the ray marcher (sdf_util.hpp)\<close>

text \<open>
  The header computes on C \<open>float\<close> values. They are modelled here by the real numbers:
  every arithmetic operation is the exact one, so rounding, overflow and the sign of zero
  are outside the model. An operation whose floating-point result is a NaN or an infinity
  (a division by zero, the logarithm of zero) has no real value; the estimator, which can
  reach one, returns an \<open>option\<close>, and \<open>None\<close> stands for such a result. The scenes
  take the result up as C does a NaN: it makes every comparison false.
\<close>

type_synonym float = real

subsection \<open>Vectors and the helpers of cutil_math.h\<close>

text \<open>The CUDA vector type \<open>float3\<close> with its constructor \<open>make_float3(x, y, z)\<close>.\<close>

datatype float3 = make_float3 (fx: float) (fy: float) (fz: float)

text \<open>
  Modelled from the spec: cutil_math.h is included by the header but is not among the
  sources. Its helpers are the componentwise vector operations, the dot product, the
  Euclidean length \<open>|pos|\<close> and the scalar minimum and maximum, as the spec uses them;
  \<open>make_float3(s)\<close> with one argument fills the three components with \<open>s\<close>.
\<close>

definition make_float3s :: "float \<Rightarrow> float3" where
  "make_float3s s = make_float3 s s s"

definition f3_add :: "float3 \<Rightarrow> float3 \<Rightarrow> float3" where
  "f3_add a b = make_float3 (fx a + fx b) (fy a + fy b) (fz a + fz b)"

definition f3_sub :: "float3 \<Rightarrow> float3 \<Rightarrow> float3" where
  "f3_sub a b = make_float3 (fx a - fx b) (fy a - fy b) (fz a - fz b)"

definition f3_smul :: "float \<Rightarrow> float3 \<Rightarrow> float3" where
  "f3_smul s a = make_float3 (s * fx a) (s * fy a) (s * fz a)"

definition f3_divs :: "float3 \<Rightarrow> float \<Rightarrow> float3" where
  "f3_divs a s = make_float3 (fx a / s) (fy a / s) (fz a / s)"

definition dot :: "float3 \<Rightarrow> float3 \<Rightarrow> float" where
  "dot a b = fx a * fx b + fy a * fy b + fz a * fz b"

definition length3 :: "float3 \<Rightarrow> float" where
  "length3 v = sqrt (dot v v)"

definition fminf :: "float \<Rightarrow> float \<Rightarrow> float" where
  "fminf a b = (if a < b then a else b)"

definition fmaxf :: "float \<Rightarrow> float \<Rightarrow> float" where
  "fmaxf a b = (if a > b then a else b)"

subsection \<open>The C library functions\<close>

text \<open>
  \<open>fmodf(x, y)\<close> is \<open>x - n * y\<close> where \<open>n\<close> is the quotient \<open>x / y\<close> truncated toward
  zero, so the result has the sign of \<open>x\<close>. The header calls it with \<open>y = 2\<close> only.
\<close>

definition truncf :: "float \<Rightarrow> int" where
  "truncf q = (if 0 \<le> q then \<lfloor>q\<rfloor> else \<lceil>q\<rceil>)"

definition fmodf :: "float \<Rightarrow> float \<Rightarrow> float" where
  "fmodf x y = x - of_int (truncf (x / y)) * y"

text \<open>
  \<open>atan2(y, x)\<close> is the angle of the point \<open>(x, y)\<close> in \<open>(-pi, pi]\<close>; at the origin it
  is \<open>0\<close> (the value for two positive zeros).
\<close>

definition atan2 :: "float \<Rightarrow> float \<Rightarrow> float" where
  "atan2 y x =
     (if 0 < x then arctan (y / x)
      else if x < 0 then (if 0 \<le> y then arctan (y / x) + pi else arctan (y / x) - pi)
      else if 0 < y then pi / 2
      else if y < 0 then - (pi / 2)
      else 0)"

subsection \<open>Distance combinators and primitives\<close>

definition sdfUnion :: "float \<Rightarrow> float \<Rightarrow> float" where
  "sdfUnion a b = fminf a b"

definition sdfDifference :: "float \<Rightarrow> float \<Rightarrow> float" where
  "sdfDifference a b = fmaxf (- a) b"

definition sdfIntersection :: "float \<Rightarrow> float \<Rightarrow> float" where
  "sdfIntersection a b = fmaxf a b"

definition sdfSphere :: "float3 \<Rightarrow> float \<Rightarrow> float" where
  "sdfSphere pos radius = length3 pos - radius"

definition sdfPlane :: "float3 \<Rightarrow> float3 \<Rightarrow> float" where
  "sdfPlane pos n = dot pos n"

subsection \<open>The fractal distance estimator\<close>

text \<open>
  The \<open>for\<close> loop of \<open>mandelbulb\<close>, from the counter \<open>i\<close> on, with the locals \<open>z\<close>,
  \<open>dr\<close> and \<open>r\<close>; it returns \<open>r\<close> and \<open>dr\<close> as they are when the loop is left, by the
  \<open>break\<close> or by the loop test. With \<open>r = 0\<close> the quotient \<open>z.z / r\<close> is \<open>0 / 0\<close>, a NaN
  that reaches the result through \<open>z\<close>: the model returns \<open>None\<close>. Elsewhere \<open>r\<close> is
  positive, where \<open>pow\<close> is \<open>powr\<close>.
\<close>

function mandelbulb_loop ::
  "float3 \<Rightarrow> int \<Rightarrow> float \<Rightarrow> float \<Rightarrow> int \<Rightarrow> float3 \<Rightarrow> float \<Rightarrow> float \<Rightarrow> (float \<times> float) option"
where
  "mandelbulb_loop pos iterations bail power' i z dr r =
     (if i < iterations then
        (let r = length3 z in
         if r > bail then Some (r, dr)
         else if r = 0 then None
         else
           (let theta = arcsin (fz z / r);
                phi = atan2 (fy z) (fx z);
                dr = r powr (power' - 1) * power' * dr + 1;
                zr = r powr power';
                theta = theta * power';
                phi = phi * power';
                z = f3_smul zr (make_float3 (cos theta * cos phi) (sin phi * cos theta) (sin theta));
                z = f3_add z pos
            in mandelbulb_loop pos iterations bail power' (i + 1) z dr r))
      else Some (r, dr))"
  by pat_completeness auto
termination
  by (relation "measure (\<lambda>(pos, iterations, bail, power', i, z, dr, r). nat (iterations - i))") auto

declare mandelbulb_loop.simps [simp del]

text \<open>
  The return statement \<open>0.5f*log(r)*r / dr\<close>: with \<open>r = 0\<close> the product \<open>log(r)*r\<close> is
  \<open>-inf * 0\<close>, and \<open>dr = 0\<close> divides by zero.
\<close>

definition mandelbulb :: "float3 \<Rightarrow> int \<Rightarrow> float \<Rightarrow> float \<Rightarrow> float option" where
  "mandelbulb pos iterations bail power' =
     (case mandelbulb_loop pos iterations bail power' 0 pos 1 0 of
        None \<Rightarrow> None
      | Some (r, dr) \<Rightarrow> if r \<le> 0 \<or> dr = 0 then None else Some (0.5 * ln r * r / dr))"

subsection \<open>Scene composers and color samplers\<close>

text \<open>
  Both scenes of the fractal call \<open>mandelbulb\<close> with 8 iterations, bailout 4 and power 8.
  There \<open>dr\<close> never falls below 1 and the last radius is positive (lemma
  \<open>mandelbulb_scene_call_None\<close>), so the result is \<open>None\<close> only when an iterate is the
  origin: a NaN, not an infinity. The operations that
  take the result up are those of C on a value that may be a NaN: the product of a NaN
  is a NaN; every comparison with a NaN is false; and \<open>min(a, b)\<close>, which is
  \<open>a < b ? a : b\<close>, is \<open>b\<close> when \<open>a\<close> is a NaN (so is the \<open>fminf\<close> of CUDA, which returns
  the argument that is a number).
\<close>

definition fmul_nan :: "float option \<Rightarrow> float \<Rightarrow> float option" where
  "fmul_nan a s = (case a of None \<Rightarrow> None | Some a \<Rightarrow> Some (a * s))"

definition less_nan :: "float \<Rightarrow> float option \<Rightarrow> bool" where
  "less_nan a b = (case b of None \<Rightarrow> False | Some b \<Rightarrow> a < b)"

definition fminf_nan :: "float option \<Rightarrow> float \<Rightarrow> float" where
  "fminf_nan a b = (case a of None \<Rightarrow> b | Some a \<Rightarrow> fminf a b)"

definition sdfUnion_nan :: "float option \<Rightarrow> float \<Rightarrow> float" where
  "sdfUnion_nan a b = fminf_nan a b"

definition mandelbulbScene :: "float3 \<Rightarrow> float" where
  "mandelbulbScene pos =
     (let mb = fmul_nan (mandelbulb (f3_divs pos 2.3) 8 4 8) 2.3;
          plane = sdfPlane (f3_sub pos (make_float3 0 (- 2) 0)) (make_float3 0 1 0)
      in sdfUnion_nan mb plane)"

definition mandelbulbColor :: "float3 \<Rightarrow> float3" where
  "mandelbulbColor pos =
     (let mb = fmul_nan (mandelbulb (f3_divs pos 2.3) 8 4 8) 2.3;
          plane = sdfPlane (f3_sub pos (make_float3 0 (- 2) 0)) (make_float3 0 1 0)
      in if less_nan plane mb then make_float3s 0.85
         else make_float3 0.85 1 0)"

definition sphereScene :: "float3 \<Rightarrow> float" where
  "sphereScene pos =
     (let mod1 = make_float3 (fmodf (fx pos) 2 - 1) (fy pos + 1.5) (fmodf (fz pos) 2 - 1);
          spheres1 = sdfSphere mod1 0.5;
          mod2 = make_float3 (- fmodf (fx pos) 2 - 1) (fy pos + 1.5) (fmodf (fz pos) 2 - 1);
          spheres2 = sdfSphere mod2 0.5;
          mod3 = make_float3 (fmodf (fx pos) 2 - 1) (fy pos + 1.5) (- fmodf (fz pos) 2 - 1);
          spheres3 = sdfSphere mod3 0.5;
          mod4 = make_float3 (- fmodf (fx pos) 2 - 1) (fy pos + 1.5) (- fmodf (fz pos) 2 - 1);
          spheres4 = sdfSphere mod4 0.5;
          spheres = sdfUnion (sdfUnion (sdfUnion spheres1 spheres2) spheres3) spheres4;
          plane = sdfPlane (f3_sub pos (make_float3 0 (- 2) 0)) (make_float3 0 1 0)
      in sdfUnion spheres plane)"

definition sphereColor :: "float3 \<Rightarrow> float3" where
  "sphereColor pos =
     (let mod1 = make_float3 (fmodf (fx pos) 2 - 1) (fy pos + 1.5) (fmodf (fz pos) 2 - 1);
          spheres1 = sdfSphere mod1 0.5;
          mod2 = make_float3 (- fmodf (fx pos) 2 - 1) (fy pos + 1.5) (fmodf (fz pos) 2 - 1);
          spheres2 = sdfSphere mod2 0.5;
          mod3 = make_float3 (fmodf (fx pos) 2 - 1) (fy pos + 1.5) (- fmodf (fz pos) 2 - 1);
          spheres3 = sdfSphere mod3 0.5;
          mod4 = make_float3 (- fmodf (fx pos) 2 - 1) (fy pos + 1.5) (- fmodf (fz pos) 2 - 1);
          spheres4 = sdfSphere mod4 0.5;
          spheres = sdfUnion (sdfUnion (sdfUnion spheres1 spheres2) spheres3) spheres4;
          plane = sdfPlane (f3_sub pos (make_float3 0 (- 2) 0)) (make_float3 0 1 0)
      in if plane < spheres then make_float3 1 0.3 0.1
         else make_float3s 0.85)"

subsection \<open>The escape-time algorithm as the specification words it\<close>

text \<open>
  The cartesian point of the spherical coordinates \<open>(rho, theta, phi)\<close>, \<open>theta\<close> being the
  elevation above the \<open>xy\<close> plane.
\<close>

definition cartesian :: "float \<Rightarrow> float \<Rightarrow> float \<Rightarrow> float3" where
  "cartesian rho theta phi =
     make_float3 (rho * (cos theta * cos phi)) (rho * (sin phi * cos theta)) (rho * sin theta)"

text \<open>
  At most \<open>n\<close> steps from the iterate \<open>z\<close>, the derivative \<open>dr\<close> and the radius \<open>r\<close>. A
  step sets \<open>r = |z|\<close> and stops when \<open>r\<close> exceeds \<open>bail\<close>; otherwise it takes
  \<open>theta = asin(z.z / r)\<close> and \<open>phi = atan2(z.y, z.x)\<close>, updates \<open>dr\<close> to
  \<open>r^(p-1) * p * dr + 1\<close> and \<open>z\<close> to the cartesian point of
  \<open>(r^p, p * theta, p * phi)\<close> plus \<open>pos\<close>. The quotient by \<open>r = 0\<close> is undefined.
\<close>

primrec escape_time ::
  "nat \<Rightarrow> float3 \<Rightarrow> float \<Rightarrow> float \<Rightarrow> float3 \<Rightarrow> float \<Rightarrow> float \<Rightarrow> (float \<times> float) option"
where
  "escape_time 0 pos bail p z dr r = Some (r, dr)"
| "escape_time (Suc n) pos bail p z dr r =
     (if length3 z > bail then Some (length3 z, dr)
      else if length3 z = 0 then None
      else escape_time n pos bail p
             (f3_add (cartesian (length3 z powr p) (p * arcsin (fz z / length3 z))
                        (p * atan2 (fy z) (fx z))) pos)
             (length3 z powr (p - 1) * p * dr + 1)
             (length3 z))"

text \<open>The estimate \<open>0.5 * ln(r) * r / dr\<close> after the steps from \<open>z = pos\<close>, \<open>dr = 1\<close>, \<open>r = 0\<close>.\<close>

definition distance_estimate :: "float3 \<Rightarrow> nat \<Rightarrow> float \<Rightarrow> float \<Rightarrow> float option" where
  "distance_estimate pos n bail p =
     (case escape_time n pos bail p pos 1 0 of
        None \<Rightarrow> None
      | Some (r, dr) \<Rightarrow> if r \<le> 0 \<or> dr = 0 then None else Some (0.5 * ln r * r / dr))"

subsection \<open>The sub-distances of the two scenes\<close>

text \<open>
  The values that the scene composers and the color samplers hold in their locals
  \<open>plane\<close>, \<open>mb\<close> and \<open>spheres\<close>: the ground plane, the rescaled fractal estimate
  (\<open>None\<close> when it is a NaN), and the union of the four sphere lattices, one for each
  pair of signs put on the two remainders.
\<close>

definition plane_sub :: "float3 \<Rightarrow> float" where
  "plane_sub pos = sdfPlane (f3_sub pos (make_float3 0 (- 2) 0)) (make_float3 0 1 0)"

definition fractal_sub :: "float3 \<Rightarrow> float option" where
  "fractal_sub pos = fmul_nan (mandelbulb (f3_divs pos 2.3) 8 4 8) 2.3"

definition lattice :: "float \<Rightarrow> float \<Rightarrow> float3 \<Rightarrow> float" where
  "lattice sx sz pos =
     sdfSphere
       (make_float3 (sx * fmodf (fx pos) 2 - 1) (fy pos + 1.5) (sz * fmodf (fz pos) 2 - 1)) 0.5"

definition spheres_sub :: "float3 \<Rightarrow> float" where
  "spheres_sub pos =
     sdfUnion (sdfUnion (sdfUnion (lattice 1 1 pos) (lattice (- 1) 1 pos)) (lattice 1 (- 1) pos))
       (lattice (- 1) (- 1) pos)"

section \<open>Helper facts\<close>

lemma fminf_min: "fminf a b = min a b"
  by (simp add: fminf_def min_def)

lemma fmaxf_max: "fmaxf a b = max a b"
  by (simp add: fmaxf_def max_def)

lemma truncf_minus: "truncf (- q) = - truncf q"
  by (auto simp: truncf_def ceiling_def)

lemma fmodf_minus: "fmodf (- x) y = - fmodf x y"
  by (simp add: fmodf_def truncf_minus)

lemma fmodf_1_2: "fmodf 1 2 = 1"
  by (simp add: fmodf_def truncf_def)

lemma plane_sub_height: "plane_sub pos = fy pos + 2"
  by (simp add: plane_sub_def sdfPlane_def f3_sub_def dot_def)

lemma length3_divs: "0 < c \<Longrightarrow> length3 (f3_divs pos c) = length3 pos / c"
proof -
  assume c: "0 < c"
  have "dot (f3_divs pos c) (f3_divs pos c) = dot pos pos / c\<^sup>2"
    by (simp add: dot_def f3_divs_def power2_eq_square add_divide_distrib)
  then show ?thesis using c by (simp add: length3_def real_sqrt_divide)
qed

text \<open>The loop with its integer counter runs the steps that are left.\<close>

lemma mandelbulb_loop_escape_time:
  "mandelbulb_loop pos iterations bail p i z dr r =
     escape_time (nat (iterations - i)) pos bail p z dr r"
proof (induction pos iterations bail p i z dr r rule: mandelbulb_loop.induct)
  case (1 pos iterations bail p i z dr r)
  show ?case
  proof (cases "i < iterations")
    case False
    then show ?thesis by (simp add: mandelbulb_loop.simps [of pos iterations bail p i])
  next
    case True
    then have n: "nat (iterations - i) = Suc (nat (iterations - (i + 1)))" by simp
    show ?thesis
    proof (cases "length3 z > bail \<or> length3 z = 0")
      case True
      with \<open>i < iterations\<close> show ?thesis
        by (auto simp: mandelbulb_loop.simps [of pos iterations bail p i] n Let_def)
    next
      case False
      with \<open>i < iterations\<close> "1.IH" show ?thesis
        by (simp add: mandelbulb_loop.simps [of pos iterations bail p i] n Let_def
            cartesian_def f3_smul_def mult.commute)
    qed
  qed
qed

text \<open>A point beyond the bailout radius leaves the loop in its first iteration.\<close>

lemma mandelbulb_escape_first:
  assumes "bail < length3 p" "0 < length3 p" "0 < iterations"
  shows "mandelbulb p iterations bail q = Some (0.5 * ln (length3 p) * length3 p)"
  using assms by (simp add: mandelbulb_def mandelbulb_loop.simps [of p iterations bail q 0] Let_def)

text \<open>Beyond the scaled bailout radius the scene is the escaped estimate or the plane.\<close>

lemma mandelbulbScene_escaped:
  assumes far: "2.3 * 4 < length3 pos"
  shows "mandelbulb (f3_divs pos 2.3) 8 4 8 =
           Some (0.5 * ln (length3 pos / 2.3) * (length3 pos / 2.3))"
    and "mandelbulbScene pos =
           min (2.3 * 0.5 * ln (length3 pos / 2.3) * (length3 pos / 2.3)) (fy pos + 2)"
proof -
  have l: "length3 (f3_divs pos 2.3) = length3 pos / 2.3" by (simp add: length3_divs)
  have b: "4 < length3 pos / 2.3" using far by (simp add: field_simps)
  show m: "mandelbulb (f3_divs pos 2.3) 8 4 8 =
             Some (0.5 * ln (length3 pos / 2.3) * (length3 pos / 2.3))"
    using mandelbulb_escape_first [of 4 "f3_divs pos 2.3" 8 8] b by (simp add: l)
  show "mandelbulbScene pos =
          min (2.3 * 0.5 * ln (length3 pos / 2.3) * (length3 pos / 2.3)) (fy pos + 2)"
    using plane_sub_height [of pos]
    by (simp add: mandelbulbScene_def m Let_def sdfUnion_nan_def fminf_nan_def fmul_nan_def
        fminf_min plane_sub_def mult.commute mult.left_commute)
qed

lemma escaped_term_pos:
  assumes "4 < (a::real)"
  shows "0 < 2.3 * 0.5 * ln a * a"
proof -
  have "0 < ln a" using assms by simp
  then show ?thesis using assms by simp
qed

lemma escaped_term_mono:
  assumes "4 < (a::real)" "a < b"
  shows "2.3 * 0.5 * ln a * a < 2.3 * 0.5 * ln b * b"
proof -
  have la: "0 < ln a" using assms by simp
  have lab: "ln a < ln b" using assms by simp
  have "ln a * a < ln b * b"
    using mult_strict_mono [OF lab \<open>a < b\<close>] la assms by simp
  then have "2.3 * 0.5 * (ln a * a) < 2.3 * 0.5 * (ln b * b)" by linarith
  then show "2.3 * 0.5 * ln a * a < 2.3 * 0.5 * ln b * b" by (simp only: mult.assoc)
qed

text \<open>
  In the call of the scenes an iterate at the origin is the only way to a result that is
  not a number: \<open>dr\<close> stays at or above 1 and the radius left by the loop is positive.
\<close>

lemma escape_time_power8_defined:
  assumes "escape_time n pos bail 8 z dr r = Some (r', dr')"
    and "0 \<le> bail" "1 \<le> dr" "0 < n \<or> 0 < r"
  shows "0 < r' \<and> 1 \<le> dr'"
  using assms
proof (induction n arbitrary: z dr r)
  case 0
  then show ?case by simp
next
  case (Suc n)
  show ?case
  proof (cases "length3 z > bail")
    case True
    with Suc.prems show ?thesis by simp
  next
    case False
    with Suc.prems(1) have nz: "length3 z \<noteq> 0" by (auto split: if_splits)
    have "0 \<le> length3 z" by (simp add: length3_def dot_def)
    with nz have pos: "0 < length3 z" by simp
    have "0 \<le> length3 z powr (8 - 1) * 8 * dr" using Suc.prems(3) by simp
    then have dr: "1 \<le> length3 z powr (8 - 1) * 8 * dr + 1" by linarith
    from Suc.prems(1) False nz have
      "escape_time n pos bail 8
         (f3_add (cartesian (length3 z powr 8) (8 * arcsin (fz z / length3 z))
                    (8 * atan2 (fy z) (fx z))) pos)
         (length3 z powr (8 - 1) * 8 * dr + 1) (length3 z) = Some (r', dr')"
      by simp
    from Suc.IH [OF this Suc.prems(2) dr] pos show ?thesis by simp
  qed
qed

lemma mandelbulb_scene_call_None:
  "(mandelbulb p 8 4 8 = None) = (mandelbulb_loop p 8 4 8 0 p 1 0 = None)"
proof (cases "mandelbulb_loop p 8 4 8 0 p 1 0")
  case None
  then show ?thesis by (simp add: mandelbulb_def)
next
  case (Some a)
  obtain r dr where a: "a = (r, dr)" by (cases a)
  from Some a have "escape_time 8 p 4 8 p 1 0 = Some (r, dr)"
    by (simp add: mandelbulb_loop_escape_time)
  from escape_time_power8_defined [OF this] have "0 < r \<and> 1 \<le> dr" by simp
  then show ?thesis using Some a by (simp add: mandelbulb_def)
qed

text \<open>Two sample points: the origin, and a point above the fractal.\<close>

lemma mandelbulb_origin: "mandelbulb (f3_divs (make_float3 0 0 0) 2.3) 8 4 8 = None"
  by (simp add: mandelbulb_def f3_divs_def
      mandelbulb_loop.simps [of "make_float3 0 0 0" 8 4 8 0] length3_def dot_def)

lemma mandelbulb_above:
  "mandelbulb (f3_divs (make_float3 0 11.5 0) 2.3) 8 4 8 = Some (0.5 * ln 5 * 5)"
proof -
  have l: "length3 (f3_divs (make_float3 0 11.5 0) 2.3) = 5"
    by (simp add: length3_def dot_def f3_divs_def)
  show ?thesis
    using mandelbulb_escape_first [of 4 "f3_divs (make_float3 0 11.5 0) 2.3" 8 8, unfolded l]
    by simp
qed

lemma ln_5_le_2: "ln (5 :: real) \<le> 2"
proof -
  have "1 + 2 + 2\<^sup>2 / 2 \<le> exp (2 :: real)"
    by (rule exp_lower_Taylor_quadratic) simp
  then have "(5 :: real) \<le> exp 2" by simp
  then have "ln (5 :: real) \<le> ln (exp 2)" by (intro ln_mono) simp_all
  then show ?thesis by simp
qed

subsection \<open>The estimator in the plane \<open>z = 0\<close>\<close>

text \<open>
  On a point \<open>(x, y, 0)\<close> the elevation \<open>theta\<close> is \<open>0\<close> and a loop step is the complex map
  \<open>w \<mapsto> w ^ 8 + c\<close> on \<open>w = x + iy\<close>, by De Moivre's formula.
\<close>

lemma sqrt_one_plus_ratio:
  assumes "x \<noteq> 0"
  shows "sqrt (1 + (y / x)\<^sup>2) = sqrt (x\<^sup>2 + y\<^sup>2) / \<bar>x\<bar>"
proof -
  have "1 + (y / x)\<^sup>2 = (x\<^sup>2 + y\<^sup>2) / x\<^sup>2"
    using assms by (simp add: power_divide add_divide_distrib)
  then show ?thesis by (simp add: real_sqrt_divide)
qed

lemma cos_sin_arctan_ratio:
  assumes "x \<noteq> 0"
  shows "cos (arctan (y / x)) = \<bar>x\<bar> / sqrt (x\<^sup>2 + y\<^sup>2)"
    and "sin (arctan (y / x)) = (y / x) * \<bar>x\<bar> / sqrt (x\<^sup>2 + y\<^sup>2)"
  using assms by (simp_all add: cos_arctan sin_arctan sqrt_one_plus_ratio)

lemma atan2_cos_sin:
  assumes "x \<noteq> 0 \<or> y \<noteq> 0"
  shows "cos (atan2 y x) = x / sqrt (x\<^sup>2 + y\<^sup>2)"
    and "sin (atan2 y x) = y / sqrt (x\<^sup>2 + y\<^sup>2)"
proof -
  consider (pos) "0 < x" | (neg) "x < 0" | (up) "x = 0" "0 < y" | (down) "x = 0" "y < 0"
    using assms by linarith
  then have "cos (atan2 y x) = x / sqrt (x\<^sup>2 + y\<^sup>2) \<and>
      sin (atan2 y x) = y / sqrt (x\<^sup>2 + y\<^sup>2)"
  proof cases
    case pos
    then show ?thesis
      using cos_sin_arctan_ratio [of x y] by (simp add: atan2_def)
  next
    case neg
    then show ?thesis
      using cos_sin_arctan_ratio [of x y] by (simp add: atan2_def)
  next
    case up
    then show ?thesis by (simp add: atan2_def)
  next
    case down
    then show ?thesis by (simp add: atan2_def)
  qed
  then show "cos (atan2 y x) = x / sqrt (x\<^sup>2 + y\<^sup>2)"
    and "sin (atan2 y x) = y / sqrt (x\<^sup>2 + y\<^sup>2)" by simp_all
qed

lemma rcis_atan2:
  assumes "w \<noteq> 0"
  shows "rcis (cmod w) (atan2 (Im w) (Re w)) = w"
proof -
  have nz: "Re w \<noteq> 0 \<or> Im w \<noteq> 0" using assms by (auto simp: complex_eq_iff)
  have "cmod w \<noteq> 0" using assms by simp
  then show ?thesis
    using atan2_cos_sin [OF nz]
    by (simp add: complex_eq_iff cmod_def)
qed

lemma pow8_polar:
  assumes "w \<noteq> 0"
  shows "cmod w ^ 8 * cos (8 * atan2 (Im w) (Re w)) = Re (w ^ 8)"
    and "cmod w ^ 8 * sin (8 * atan2 (Im w) (Re w)) = Im (w ^ 8)"
proof -
  have "w ^ 8 = rcis (cmod w ^ 8) (real 8 * atan2 (Im w) (Re w))"
    using DeMoivre2 [of "cmod w" "atan2 (Im w) (Re w)" 8] rcis_atan2 [OF assms] by simp
  then show "cmod w ^ 8 * cos (8 * atan2 (Im w) (Re w)) = Re (w ^ 8)"
    and "cmod w ^ 8 * sin (8 * atan2 (Im w) (Re w)) = Im (w ^ 8)" by simp_all
qed

lemma length3_planar: "length3 (make_float3 (Re w) (Im w) 0) = cmod w"
  by (simp add: length3_def dot_def cmod_def power2_eq_square)

lemma escape_time_planar_step:
  assumes "w \<noteq> 0" "cmod w \<le> bail"
  shows "escape_time (Suc n) (make_float3 (Re c) (Im c) 0) bail 8 (make_float3 (Re w) (Im w) 0) dr r =
         escape_time n (make_float3 (Re c) (Im c) 0) bail 8
           (make_float3 (Re (w ^ 8 + c)) (Im (w ^ 8 + c)) 0) (cmod w ^ 7 * 8 * dr + 1) (cmod w)"
proof -
  have r: "0 < cmod w" using assms by simp
  have "f3_add (cartesian (cmod w powr 8) (8 * arcsin (0 / cmod w)) (8 * atan2 (Im w) (Re w)))
          (make_float3 (Re c) (Im c) 0) = make_float3 (Re (w ^ 8 + c)) (Im (w ^ 8 + c)) 0"
    using pow8_polar [OF assms(1)] by (simp add: cartesian_def f3_add_def)
  moreover have "cmod w powr (8 - 1) = cmod w ^ 7"
    using powr_numeral [of "cmod w" "num.Bit1 (num.Bit1 num.One)"] by simp
  ultimately show ?thesis using assms r by (simp add: length3_planar)
qed

text \<open>As long as the orbit stays off the origin and inside the bailout radius, the loop
  follows it and ends with the radius of the last iterate it has measured.\<close>

lemma escape_time_planar_run:
  assumes "\<forall>k<n. (((\<lambda>w. w ^ 8 + c) ^^ k) w) \<noteq> 0 \<and> cmod (((\<lambda>w. w ^ 8 + c) ^^ k) w) \<le> bail"
    and "0 < dr"
  shows "\<exists>dr'>0. escape_time n (make_float3 (Re c) (Im c) 0) bail 8 (make_float3 (Re w) (Im w) 0) dr r =
           Some (if n = 0 then r else cmod (((\<lambda>w. w ^ 8 + c) ^^ (n - 1)) w), dr')"
  using assms
proof (induction n arbitrary: w dr r)
  case 0
  then show ?case by simp
next
  case (Suc n)
  let ?f = "\<lambda>w. w ^ 8 + c"
  from Suc.prems(1) have w: "w \<noteq> 0" "cmod w \<le> bail" by force+
  have later: "\<forall>k<n. ((?f ^^ k) (?f w)) \<noteq> 0 \<and> cmod ((?f ^^ k) (?f w)) \<le> bail"
  proof (intro allI impI)
    fix k assume "k < n"
    then have "Suc k < Suc n" by simp
    with Suc.prems(1) have "((?f ^^ Suc k) w) \<noteq> 0 \<and> cmod ((?f ^^ Suc k) w) \<le> bail" by blast
    then show "((?f ^^ k) (?f w)) \<noteq> 0 \<and> cmod ((?f ^^ k) (?f w)) \<le> bail"
      by (simp only: funpow_Suc_right o_apply simp_thms)
  qed
  have "0 \<le> cmod w ^ 7 * 8 * dr" using Suc.prems(2) by simp
  then have dr: "0 < cmod w ^ 7 * 8 * dr + 1" by linarith
  from Suc.IH [OF later dr, of "cmod w"] obtain dr' where
    dr': "0 < dr'" and
    run: "escape_time n (make_float3 (Re c) (Im c) 0) bail 8
            (make_float3 (Re (?f w)) (Im (?f w)) 0) (cmod w ^ 7 * 8 * dr + 1) (cmod w)
          = Some (if n = 0 then cmod w else cmod ((?f ^^ (n - 1)) (?f w)), dr')"
    by blast
  have last: "(if n = 0 then cmod w else cmod ((?f ^^ (n - 1)) (?f w))) = cmod ((?f ^^ n) w)"
  proof (cases n)
    case 0
    then show ?thesis by simp
  next
    case (Suc j)
    then show ?thesis by (simp only: funpow_Suc_right o_apply) simp
  qed
  show ?case
    using escape_time_planar_step [OF w, of n c dr r] run dr' last by auto
qed

lemma orbit_step:
  fixes w m m' c :: complex
  assumes close: "cmod (w - m) \<le> e" and mb: "cmod m \<le> 1" and wb: "cmod w \<le> 1"
    and rnd: "\<bar>Re (m ^ 8 + c - m')\<bar> \<le> d \<and> \<bar>Im (m ^ 8 + c - m')\<bar> \<le> d"
  shows "cmod (w ^ 8 + c - m') \<le> 8 * e + 2 * d"
proof -
  have "w ^ 8 + c - m' = (w ^ 8 - m ^ 8) + (m ^ 8 + c - m')" by simp
  then have "cmod (w ^ 8 + c - m') \<le> cmod (w ^ 8 - m ^ 8) + cmod (m ^ 8 + c - m')"
    by (metis norm_triangle_ineq)
  moreover have "cmod (w ^ 8 - m ^ 8) \<le> 8 * cmod (w - m)"
    using norm_power_diff [OF wb mb, of 8] by simp
  moreover have "cmod (m ^ 8 + c - m') \<le> \<bar>Re (m ^ 8 + c - m')\<bar> + \<bar>Im (m ^ 8 + c - m')\<bar>"
    by (rule cmod_le)
  ultimately show ?thesis using close rnd by linarith
qed

lemma near_centre:
  fixes w m :: complex
  assumes close: "cmod (w - m) \<le> e" and mb: "(Re m)\<^sup>2 + (Im m)\<^sup>2 \<le> B\<^sup>2" and B: "0 \<le> B"
    and im: "e < \<bar>Im m\<bar>"
  shows "cmod w \<le> B + e" and "w \<noteq> 0"
proof -
  have "cmod m \<le> B" using mb B by (simp add: cmod_def real_le_lsqrt)
  moreover have "cmod w \<le> cmod m + cmod (w - m)"
    using norm_triangle_ineq [of m "w - m"] by simp
  ultimately show "cmod w \<le> B + e" using close by linarith
  have "\<bar>Im (w - m)\<bar> \<le> cmod (w - m)" by (rule abs_Im_le_cmod)
  then have "\<bar>Im w - Im m\<bar> \<le> e" using close by simp
  then have "Im w \<noteq> 0" using im by linarith
  then show "w \<noteq> 0" by auto
qed

lemma Re_Im_pow8:
  fixes w :: complex
  defines "x2 \<equiv> (Re w)\<^sup>2 - (Im w)\<^sup>2" and "y2 \<equiv> 2 * Re w * Im w"
  defines "x4 \<equiv> x2\<^sup>2 - y2\<^sup>2" and "y4 \<equiv> 2 * x2 * y2"
  shows "Re (w ^ 8) = x4\<^sup>2 - y4\<^sup>2" and "Im (w ^ 8) = 2 * x4 * y4"
proof -
  have "w ^ 8 = ((w\<^sup>2)\<^sup>2)\<^sup>2" by (simp add: power_mult [symmetric])
  then show "Re (w ^ 8) = x4\<^sup>2 - y4\<^sup>2" and "Im (w ^ 8) = 2 * x4 * y4"
    by (simp_all only: Re_power2 Im_power2 x2_def y2_def x4_def y4_def)
qed

subsection \<open>The orbit of the point below the origin on the ground plane\<close>

text \<open>
  The orbit of \<open>c = - (20 / 23) i\<close>, that is \<open>(0, - 2, 0) / 2.3\<close>, is enclosed step by step:
  each iterate lies within a small disc around a centre of eight decimals, the radius
  growing by the Lipschitz constant \<open>8\<close> of the eighth power on the unit disc and by
  the rounding of the centre.
\<close>

lemma orbit_enclosure_step:
  fixes w c :: complex
  assumes close: "cmod (w - Complex a b) \<le> e"
    and unit: "a\<^sup>2 + b\<^sup>2 \<le> B\<^sup>2" "0 \<le> B" "B + e \<le> 1"
    and away: "e < \<bar>b\<bar>"
    and rnd: "\<bar>Re (Complex a b ^ 8 + c) - a'\<bar> \<le> d"
      "\<bar>Im (Complex a b ^ 8 + c) - b'\<bar> \<le> d"
    and grow: "8 * e + 2 * d \<le> e'"
  shows "cmod (w ^ 8 + c - Complex a' b') \<le> e' \<and> w \<noteq> 0 \<and> cmod w \<le> B + e"
proof -
  have near: "cmod w \<le> B + e" "w \<noteq> 0"
    using near_centre [OF close, of B] unit away by simp_all
  have "0 \<le> e" using close norm_ge_zero [of "w - Complex a b"] by linarith
  then have "B \<le> 1" using unit(3) by linarith
  then have "B\<^sup>2 \<le> 1" using unit(2) by (simp add: power_le_one)
  then have "cmod (Complex a b) \<le> 1" using unit(1) by (simp add: cmod_def)
  moreover have "cmod w \<le> 1" using near(1) unit(3) by linarith
  ultimately have "cmod (w ^ 8 + c - Complex a' b') \<le> 8 * e + 2 * d"
    using rnd by (intro orbit_step [OF close]) simp_all
  then show ?thesis using near grow by linarith
qed

lemma orbit_bounds:
  fixes c :: complex and f :: "complex \<Rightarrow> complex"
  defines "c \<equiv> Complex 0 (- (20 / 23))"
  defines "f \<equiv> \<lambda>w. w ^ 8 + c"
  shows "\<forall>k<8. (f ^^ k) c \<noteq> 0 \<and> cmod ((f ^^ k) c) \<le> 4"
    and "cmod ((f ^^ 7) c) < 1"
proof -
  define w0 where "w0 = c"
  define w1 where "w1 = w0 ^ 8 + c"
  define w2 where "w2 = w1 ^ 8 + c"
  define w3 where "w3 = w2 ^ 8 + c"
  define w4 where "w4 = w3 ^ 8 + c"
  define w5 where "w5 = w4 ^ 8 + c"
  define w6 where "w6 = w5 ^ 8 + c"
  define w7 where "w7 = w6 ^ 8 + c"
  note eval = c_def Re_Im_pow8 power_divide abs_le_iff
  have close0: "cmod (w0 - Complex 0 (- (20 / 23))) \<le> 0" by (simp add: w0_def c_def)
  have "cmod (w0 ^ 8 + c - Complex (32690177 / 10 ^ 8) (- (86956522 / 10 ^ 8))) \<le> 1 / 10 ^ 8
      \<and> w0 \<noteq> 0 \<and> cmod w0 \<le> 95 / 100 + 0"
    by (rule orbit_enclosure_step [OF close0, where d = "1 / (2 * 10 ^ 8)"]) (simp_all add: eval)
  then have close1: "cmod (w1 - Complex (32690177 / 10 ^ 8) (- (86956522 / 10 ^ 8))) \<le> 1 / 10 ^ 8"
    and near0: "w0 \<noteq> 0" "cmod w0 \<le> 4"
    by (simp_all add: w1_def)
  have "cmod (w1 ^ 8 + c - Complex (- (53536002 / 10 ^ 8)) (- (72435990 / 10 ^ 8))) \<le> 1 / 10 ^ 7
      \<and> w1 \<noteq> 0 \<and> cmod w1 \<le> 95 / 100 + 1 / 10 ^ 8"
    by (rule orbit_enclosure_step [OF close1, where d = "1 / (2 * 10 ^ 8)"]) (simp_all add: eval)
  then have close2: "cmod (w2 - Complex (- (53536002 / 10 ^ 8)) (- (72435990 / 10 ^ 8))) \<le> 1 / 10 ^ 7"
    and near1: "w1 \<noteq> 0" "cmod w1 \<le> 4"
    by (simp_all add: w2_def)
  have "cmod (w2 ^ 8 + c - Complex (16046787 / 10 ^ 8) (- (46712420 / 10 ^ 8))) \<le> 1 / 10 ^ 6
      \<and> w2 \<noteq> 0 \<and> cmod w2 \<le> 95 / 100 + 1 / 10 ^ 7"
    by (rule orbit_enclosure_step [OF close2, where d = "1 / (2 * 10 ^ 8)"]) (simp_all add: eval)
  then have close3: "cmod (w3 - Complex (16046787 / 10 ^ 8) (- (46712420 / 10 ^ 8))) \<le> 1 / 10 ^ 6"
    and near2: "w2 \<noteq> 0" "cmod w2 \<le> 4"
    by (simp_all add: w3_def)
  have "cmod (w3 ^ 8 + c - Complex (- (311770 / 10 ^ 8)) (- (86788441 / 10 ^ 8))) \<le> 1 / 10 ^ 5
      \<and> w3 \<noteq> 0 \<and> cmod w3 \<le> 95 / 100 + 1 / 10 ^ 6"
    by (rule orbit_enclosure_step [OF close3, where d = "1 / (2 * 10 ^ 8)"]) (simp_all add: eval)
  then have close4: "cmod (w4 - Complex (- (311770 / 10 ^ 8)) (- (86788441 / 10 ^ 8))) \<le> 1 / 10 ^ 5"
    and near3: "w3 \<noteq> 0" "cmod w3 \<le> 4"
    by (simp_all add: w4_def)
  have "cmod (w4 ^ 8 + c - Complex (32176452 / 10 ^ 8) (- (87881472 / 10 ^ 8))) \<le> 1 / 10 ^ 4
      \<and> w4 \<noteq> 0 \<and> cmod w4 \<le> 95 / 100 + 1 / 10 ^ 5"
    by (rule orbit_enclosure_step [OF close4, where d = "1 / (2 * 10 ^ 8)"]) (simp_all add: eval)
  then have close5: "cmod (w5 - Complex (32176452 / 10 ^ 8) (- (87881472 / 10 ^ 8))) \<le> 1 / 10 ^ 4"
    and near4: "w4 \<noteq> 0" "cmod w4 \<le> 4"
    by (simp_all add: w5_def)
  have "cmod (w5 ^ 8 + c - Complex (- (55597877 / 10 ^ 8)) (- (67677328 / 10 ^ 8))) \<le> 1 / 10 ^ 3
      \<and> w5 \<noteq> 0 \<and> cmod w5 \<le> 95 / 100 + 1 / 10 ^ 4"
    by (rule orbit_enclosure_step [OF close5, where d = "1 / (2 * 10 ^ 8)"]) (simp_all add: eval)
  then have close6: "cmod (w6 - Complex (- (55597877 / 10 ^ 8)) (- (67677328 / 10 ^ 8))) \<le> 1 / 10 ^ 3"
    and near5: "w5 \<noteq> 0" "cmod w5 \<le> 4"
    by (simp_all add: w6_def)
  have "cmod (w6 ^ 8 + c - Complex (24586543 / 10 ^ 8) (- (62565463 / 10 ^ 8))) \<le> 1 / 10 ^ 2
      \<and> w6 \<noteq> 0 \<and> cmod w6 \<le> 95 / 100 + 1 / 10 ^ 3"
    by (rule orbit_enclosure_step [OF close6, where d = "1 / (2 * 10 ^ 8)"]) (simp_all add: eval)
  then have close7: "cmod (w7 - Complex (24586543 / 10 ^ 8) (- (62565463 / 10 ^ 8))) \<le> 1 / 10 ^ 2"
    and near6: "w6 \<noteq> 0" "cmod w6 \<le> 4"
    by (simp_all add: w7_def)
  have last: "cmod w7 \<le> 7 / 10 + 1 / 10 ^ 2" "w7 \<noteq> 0"
    using near_centre [OF close7, of "7 / 10"] by (simp_all add: power_divide)
  then have near7: "w7 \<noteq> 0" "cmod w7 \<le> 4" by simp_all
  have orbit: "(f ^^ 0) c = w0" "(f ^^ 1) c = w1" "(f ^^ 2) c = w2" "(f ^^ 3) c = w3"
    "(f ^^ 4) c = w4" "(f ^^ 5) c = w5" "(f ^^ 6) c = w6" "(f ^^ 7) c = w7"
    by (simp_all add: eval_nat_numeral f_def w0_def w1_def w2_def w3_def w4_def w5_def w6_def
        w7_def)
  have "(f ^^ k) c \<noteq> 0 \<and> cmod ((f ^^ k) c) \<le> 4" if "k < 8" for k
  proof -
    from that consider "k = 0" | "k = 1" | "k = 2" | "k = 3" | "k = 4" | "k = 5" | "k = 6"
      | "k = 7"
      by linarith
    then show ?thesis
      using near0 near1 near2 near3 near4 near5 near6 near7 orbit by cases simp_all
  qed
  then show "\<forall>k<8. (f ^^ k) c \<noteq> 0 \<and> cmod ((f ^^ k) c) \<le> 4" by blast
  show "cmod ((f ^^ 7) c) < 1" using last(1) orbit(8) by simp
qed

lemma mandelbulb_below_ground_point:
  "\<exists>m. m < 0 \<and> mandelbulb (f3_divs (make_float3 0 (- 2) 0) 2.3) 8 4 8 = Some m"
proof -
  define c where "c = Complex 0 (- (20 / 23))"
  define f where "f = (\<lambda>w. w ^ 8 + c)"
  define r where "r = cmod ((f ^^ 7) c)"
  have p: "f3_divs (make_float3 0 (- 2) 0) 2.3 = make_float3 (Re c) (Im c) 0"
    by (simp add: f3_divs_def c_def)
  have inside: "\<forall>k<8. (f ^^ k) c \<noteq> 0 \<and> cmod ((f ^^ k) c) \<le> 4"
    and r1: "r < 1"
    using orbit_bounds by (simp_all add: r_def f_def c_def)
  from inside have "(f ^^ 7) c \<noteq> 0" by simp
  then have r0: "0 < r" by (simp add: r_def)
  from escape_time_planar_run [of 8 c c 4 1 0] inside obtain dr where
    dr: "0 < dr" and
    run: "escape_time 8 (make_float3 (Re c) (Im c) 0) 4 8 (make_float3 (Re c) (Im c) 0) 1 0 =
          Some (r, dr)"
    by (auto simp: r_def f_def)
  have "ln r < 0" using r0 r1 by simp
  then have "ln r * r < 0" using r0 by (simp add: mult_neg_pos)
  then have neg: "0.5 * ln r * r / dr < 0" using dr by (simp add: divide_neg_pos)
  have "mandelbulb (make_float3 (Re c) (Im c) 0) 8 4 8 = Some (0.5 * ln r * r / dr)"
    using run r0 dr by (simp add: mandelbulb_def mandelbulb_loop_escape_time)
  then show ?thesis using neg p by auto
qed

section \<open>Combinators and primitives\<close>

text \<open>
  C4. For all distances \<open>a\<close> and \<open>b\<close>, \<open>sdfUnion a b\<close> is the minimum of \<open>a\<close> and \<open>b\<close>,
  \<open>sdfIntersection a b\<close> their maximum and \<open>sdfDifference a b\<close> the maximum of \<open>- a\<close>
  and \<open>b\<close>. The three are total: each returns a distance for every pair of arguments.
\<close>

theorem sdf_combinators_min_max:
  "sdfUnion a b = min a b \<and> sdfIntersection a b = max a b \<and> sdfDifference a b = max (- a) b"
  by (simp add: sdfUnion_def sdfIntersection_def sdfDifference_def fminf_min fmaxf_max)

text \<open>
  C5, as the claim states it, fails: \<open>sdfDifference 1 2\<close> is \<open>max (- 1) 2 = 2\<close>, not \<open>- 1\<close>.
\<close>

theorem sdfDifference_1_2_not_minus_1: "sdfDifference 1 2 \<noteq> - 1"
  by (simp add: sdfDifference_def fmaxf_def)

text \<open>
  C5, amended. \<open>sdfDifference\<close> is not commutative: \<open>sdfDifference 1 2\<close> is \<open>2\<close> and
  \<open>sdfDifference 2 1\<close> is \<open>1\<close>.
\<close>

theorem sdfDifference_not_commutative:
  "sdfDifference 1 2 = 2 \<and> sdfDifference 2 1 = 1 \<and>
   (\<exists>a b. sdfDifference a b \<noteq> sdfDifference b a)"
proof -
  have a: "sdfDifference 1 2 = 2" and b: "sdfDifference 2 1 = 1"
    by (simp_all add: sdfDifference_def fmaxf_def)
  then have "sdfDifference 1 2 \<noteq> sdfDifference 2 1" by simp
  then show ?thesis using a b by blast
qed

text \<open>
  C6. \<open>sdfSphere pos radius\<close> is the Euclidean norm of \<open>pos\<close> minus \<open>radius\<close>, and
  \<open>sdfPlane pos n\<close> the dot product of \<open>pos\<close> and \<open>n\<close>; the sphere of radius 5 passes
  through \<open>(3, 4, 0)\<close>, the centre of the sphere of radius 2 is at distance \<open>- 2\<close>, and the
  plane with normal \<open>(0, 1, 0)\<close> is at distance \<open>1\<close> from \<open>(0, 1, 0)\<close> and \<open>- 1\<close> from
  \<open>(0, - 1, 0)\<close>.
\<close>

theorem sdf_primitives_closed_form:
  "sdfSphere pos radius = sqrt ((fx pos)\<^sup>2 + (fy pos)\<^sup>2 + (fz pos)\<^sup>2) - radius
   \<and> sdfPlane pos n = fx pos * fx n + fy pos * fy n + fz pos * fz n
   \<and> sdfSphere (make_float3 3 4 0) 5 = 0
   \<and> sdfSphere (make_float3 0 0 0) 2 = - 2
   \<and> sdfPlane (make_float3 0 1 0) (make_float3 0 1 0) = 1
   \<and> sdfPlane (make_float3 0 (- 1) 0) (make_float3 0 1 0) = - 1"
  by (simp add: sdfSphere_def sdfPlane_def length3_def dot_def power2_eq_square)

section \<open>The fractal estimator\<close>

text \<open>
  C1. \<open>mandelbulb pos iterations bail p\<close> is the escape-time estimate: from \<open>z = pos\<close>,
  \<open>dr = 1\<close>, \<open>r = 0\<close> it runs at most \<open>iterations\<close> steps of \<open>escape_time\<close> (none when
  \<open>iterations\<close> is not positive), each setting \<open>r = |z|\<close>, stopping when \<open>r\<close> exceeds
  \<open>bail\<close> and otherwise updating \<open>dr\<close> and \<open>z\<close> as the algorithm says, and returns
  \<open>0.5 * ln r * r / dr\<close>.
\<close>

theorem mandelbulb_escape_time:
  "mandelbulb pos iterations bail p = distance_estimate pos (nat iterations) bail p"
  by (simp add: mandelbulb_def distance_estimate_def mandelbulb_loop_escape_time)

section \<open>The scenes\<close>

text \<open>
  C2. For every point, \<open>mandelbulbScene pos\<close> is the union of the fractal estimate at
  \<open>pos / 2.3\<close> (the point scaled by \<open>1 / 2.3\<close>), with 8 iterations, bailout 4 and power 8,
  multiplied by \<open>2.3\<close>, and of the plane distance of \<open>pos - (0, - 2, 0)\<close> for the normal
  \<open>(0, 1, 0)\<close>, which is the height \<open>y + 2\<close> above the ground. Where the estimate is a
  number \<open>m\<close> the scene is the minimum of \<open>m * 2.3\<close> and \<open>y + 2\<close>; where it is a NaN, as
  at the origin, the union is the plane distance. At \<open>(0, 11.5, 0)\<close> the scene is the
  fractal term, at the origin it is \<open>2\<close>.
\<close>

theorem mandelbulbScene_composition:
  "mandelbulbScene pos =
     sdfUnion_nan (fmul_nan (mandelbulb (f3_divs pos 2.3) 8 4 8) 2.3)
       (sdfPlane (f3_sub pos (make_float3 0 (- 2) 0)) (make_float3 0 1 0))
   \<and> mandelbulbScene pos =
       (case mandelbulb (f3_divs pos 2.3) 8 4 8 of
          Some m \<Rightarrow> min (m * 2.3) (fy pos + 2)
        | None \<Rightarrow> fy pos + 2)
   \<and> sdfPlane (f3_sub pos (make_float3 0 (- 2) 0)) (make_float3 0 1 0) = fy pos + 2
   \<and> f3_divs pos 2.3 = f3_smul (1 / 2.3) pos
   \<and> mandelbulb (f3_divs (make_float3 0 0 0) 2.3) 8 4 8 = None
   \<and> mandelbulbScene (make_float3 0 0 0) = 2
   \<and> mandelbulb (f3_divs (make_float3 0 11.5 0) 2.3) 8 4 8 = Some (0.5 * ln 5 * 5)
   \<and> mandelbulbScene (make_float3 0 11.5 0) = 0.5 * ln 5 * 5 * 2.3"
proof -
  have plane: "sdfPlane (f3_sub pos (make_float3 0 (- 2) 0)) (make_float3 0 1 0) = fy pos + 2"
    for pos
    by (simp add: sdfPlane_def f3_sub_def dot_def)
  have scene: "mandelbulbScene pos =
       (case mandelbulb (f3_divs pos 2.3) 8 4 8 of
          Some m \<Rightarrow> min (m * 2.3) (fy pos + 2)
        | None \<Rightarrow> fy pos + 2)" for pos
    by (simp add: mandelbulbScene_def Let_def plane sdfUnion_nan_def fminf_nan_def fmul_nan_def
        fminf_min split: option.split)
  have "5.75 * ln 5 \<le> (5.75 * 2 :: real)" using ln_5_le_2 by simp
  then have "min (0.5 * ln 5 * 5 * 2.3) (11.5 + 2 :: real) = 0.5 * ln 5 * 5 * 2.3" by simp
  then have above: "mandelbulbScene (make_float3 0 11.5 0) = 0.5 * ln 5 * 5 * 2.3"
    using mandelbulb_above by (simp add: scene)
  have origin: "mandelbulbScene (make_float3 0 0 0) = 2"
    using mandelbulb_origin by (simp add: scene)
  have union: "mandelbulbScene pos =
     sdfUnion_nan (fmul_nan (mandelbulb (f3_divs pos 2.3) 8 4 8) 2.3)
       (sdfPlane (f3_sub pos (make_float3 0 (- 2) 0)) (make_float3 0 1 0))"
    by (simp add: mandelbulbScene_def Let_def)
  have scale: "f3_divs pos 2.3 = f3_smul (1 / 2.3) pos"
    by (simp add: f3_divs_def f3_smul_def)
  show ?thesis
    using union scene [of pos] plane [of pos] scale mandelbulb_origin origin mandelbulb_above
      above
    by blast
qed

text \<open>
  C3. Each color sampler computes the sub-distances of its scene composer and takes the
  material of the smaller one. \<open>mandelbulbScene\<close> is the union of the fractal and the
  plane sub-distance, and \<open>mandelbulbColor\<close> is gray when the plane sub-distance is
  strictly less than the fractal one and yellow-green otherwise; \<open>sphereScene\<close> is the
  union of the spheres and the plane sub-distance, and \<open>sphereColor\<close> is orange-red when
  the plane sub-distance is strictly less than the spheres one and gray otherwise. So
  where the fractal sub-distance is a number, and at every point of the sphere scene, the
  scene distance is the plane sub-distance where the color is the plane's, and the other
  sub-distance where it is not. Where the fractal sub-distance is a NaN, as at the
  origin, the comparison is false: the color is yellow-green, that of the otherwise
  branch, and the union is the plane sub-distance.
\<close>

theorem color_follows_smaller_sub_distance:
  "mandelbulbScene pos = sdfUnion_nan (fractal_sub pos) (plane_sub pos)
   \<and> mandelbulbColor pos =
       (if less_nan (plane_sub pos) (fractal_sub pos) then make_float3 0.85 0.85 0.85
        else make_float3 0.85 1 0)
   \<and> (case fractal_sub pos of
         Some mb \<Rightarrow>
           mandelbulbColor pos =
             (if plane_sub pos < mb then make_float3 0.85 0.85 0.85 else make_float3 0.85 1 0)
           \<and> mandelbulbScene pos = (if plane_sub pos < mb then plane_sub pos else mb)
       | None \<Rightarrow>
           mandelbulbColor pos = make_float3 0.85 1 0 \<and> mandelbulbScene pos = plane_sub pos)
   \<and> sphereScene pos = sdfUnion (spheres_sub pos) (plane_sub pos)
   \<and> sphereColor pos =
       (if plane_sub pos < spheres_sub pos then make_float3 1 0.3 0.1
        else make_float3 0.85 0.85 0.85)
   \<and> sphereScene pos =
       (if plane_sub pos < spheres_sub pos then plane_sub pos else spheres_sub pos)
   \<and> fractal_sub (make_float3 0 0 0) = None
   \<and> mandelbulbColor (make_float3 0 0 0) = make_float3 0.85 1 0
   \<and> fractal_sub (make_float3 0 11.5 0) = Some (0.5 * ln 5 * 5 * 2.3)
   \<and> plane_sub (make_float3 0 11.5 0) = 13.5
   \<and> mandelbulbColor (make_float3 0 11.5 0) = make_float3 0.85 1 0
   \<and> fractal_sub (make_float3 0 (- 100) 0) = Some (0.5 * ln (100 / 2.3) * (100 / 2.3) * 2.3)
   \<and> plane_sub (make_float3 0 (- 100) 0) = - 98
   \<and> mandelbulbColor (make_float3 0 (- 100) 0) = make_float3 0.85 0.85 0.85"
proof -
  have general:
    "mandelbulbScene pos = sdfUnion_nan (fractal_sub pos) (plane_sub pos)
     \<and> mandelbulbColor pos =
         (if less_nan (plane_sub pos) (fractal_sub pos) then make_float3 0.85 0.85 0.85
          else make_float3 0.85 1 0)" for pos
    by (simp add: mandelbulbScene_def mandelbulbColor_def plane_sub_def fractal_sub_def
        make_float3s_def Let_def)
  have cases: "(case fractal_sub pos of
         Some mb \<Rightarrow>
           mandelbulbColor pos =
             (if plane_sub pos < mb then make_float3 0.85 0.85 0.85 else make_float3 0.85 1 0)
           \<and> mandelbulbScene pos = (if plane_sub pos < mb then plane_sub pos else mb)
       | None \<Rightarrow>
           mandelbulbColor pos = make_float3 0.85 1 0 \<and> mandelbulbScene pos = plane_sub pos)"
    by (simp add: general less_nan_def sdfUnion_nan_def fminf_nan_def fminf_def
        split: option.split)
  have spheres: "sphereScene pos = sdfUnion (spheres_sub pos) (plane_sub pos)
   \<and> sphereColor pos =
       (if plane_sub pos < spheres_sub pos then make_float3 1 0.3 0.1
        else make_float3 0.85 0.85 0.85)
   \<and> sphereScene pos =
       (if plane_sub pos < spheres_sub pos then plane_sub pos else spheres_sub pos)"
    by (simp add: sphereScene_def sphereColor_def plane_sub_def spheres_sub_def lattice_def
        make_float3s_def Let_def sdfUnion_def fminf_def)
  have origin: "fractal_sub (make_float3 0 0 0) = None"
    by (simp add: fractal_sub_def fmul_nan_def mandelbulb_origin)
  then have origin_color: "mandelbulbColor (make_float3 0 0 0) = make_float3 0.85 1 0"
    by (simp add: general less_nan_def)
  have above: "fractal_sub (make_float3 0 11.5 0) = Some (0.5 * ln 5 * 5 * 2.3)"
    using mandelbulb_above by (simp add: fractal_sub_def fmul_nan_def)
  have "5.75 * ln 5 \<le> (5.75 * 2 :: real)" using ln_5_le_2 by simp
  then have "\<not> (13.5 :: real) < 0.5 * ln 5 * 5 * 2.3" by simp
  then have above_color: "mandelbulbColor (make_float3 0 11.5 0) = make_float3 0.85 1 0"
    using above by (simp add: general less_nan_def plane_sub_height)
  have far: "2.3 * 4 < length3 (make_float3 0 (- 100) 0)" by (simp add: length3_def dot_def)
  have below: "fractal_sub (make_float3 0 (- 100) 0) =
      Some (0.5 * ln (100 / 2.3) * (100 / 2.3) * 2.3)"
    using mandelbulbScene_escaped(1) [OF far]
    by (simp add: fractal_sub_def fmul_nan_def length3_def dot_def)
  have "0 < 0.5 * ln (100 / 2.3) * (100 / 2.3) * (2.3 :: real)"
    by (intro mult_pos_pos) simp_all
  then have "(- 98 :: real) < 0.5 * ln (100 / 2.3) * (100 / 2.3) * 2.3" by linarith
  then have below_color:
    "mandelbulbColor (make_float3 0 (- 100) 0) = make_float3 0.85 0.85 0.85"
    using below by (simp add: general less_nan_def plane_sub_height)
  show ?thesis
    using general [of pos] cases spheres origin origin_color above above_color below below_color
    by (simp add: plane_sub_height)
qed

text \<open>
  C8. At the lattice sphere centre \<open>(1, - 1.5, 1)\<close> the sphere scene is minus the radius,
  \<open>- 0.5\<close>, and at \<open>(1, - 1.5 + 0.5, 1)\<close>, on the sphere above the centre, it is \<open>0\<close>.
\<close>

theorem sphereScene_lattice_centre:
  "sphereScene (make_float3 1 (- 1.5) 1) = - 0.5 \<and>
   sphereScene (make_float3 1 (- 1.5 + 0.5) 1) = 0"
proof -
  have s14: "sqrt (1/4) = 1/2"
    using real_sqrt_abs [of "1/2"] by (simp add: power2_eq_square)
  have l1: "1/2 \<le> sqrt (17/4)" using real_sqrt_le_mono [of "1/4" "17/4"] s14 by simp
  have l2: "1/2 \<le> sqrt (33/4)" using real_sqrt_le_mono [of "1/4" "33/4"] s14 by simp
  have a: "sphereScene (make_float3 1 (- 1.5) 1) = - 0.5"
    by (simp add: sphereScene_def sdfSphere_def sdfPlane_def sdfUnion_def fminf_min
        length3_def dot_def f3_sub_def fmodf_1_2 Let_def)
  have b: "sphereScene (make_float3 1 (- 1.5 + 0.5) 1) = 0"
    using l1 l2 by (simp add: sphereScene_def sdfSphere_def sdfPlane_def sdfUnion_def fminf_min
        length3_def dot_def f3_sub_def fmodf_1_2 s14 Let_def)
  show ?thesis using a b by simp
qed

text \<open>
  C10. The sphere scene and its color are mirror symmetric in \<open>x\<close> and in \<open>z\<close>: negating
  the coordinate negates its remainder \<open>fmodf x 2\<close>, which exchanges the lattices of
  opposite sign and leaves their union, the plane term and the color as they are.
\<close>

theorem sphere_scene_mirror_symmetry:
  "sphereScene (make_float3 (- x) y z) = sphereScene (make_float3 x y z)
   \<and> sphereScene (make_float3 x y (- z)) = sphereScene (make_float3 x y z)
   \<and> sphereColor (make_float3 (- x) y z) = sphereColor (make_float3 x y z)
   \<and> sphereColor (make_float3 x y (- z)) = sphereColor (make_float3 x y z)
   \<and> fmodf (- x) 2 = - fmodf x 2
   \<and> lattice sx sz (make_float3 (- x) y z) = lattice (- sx) sz (make_float3 x y z)
   \<and> lattice sx sz (make_float3 x y (- z)) = lattice sx (- sz) (make_float3 x y z)
   \<and> plane_sub (make_float3 (- x) y z) = plane_sub (make_float3 x y z)
   \<and> plane_sub (make_float3 x y (- z)) = plane_sub (make_float3 x y z)"
  by (simp add: sphereScene_def sphereColor_def fmodf_minus sdfUnion_def fminf_min Let_def
      lattice_def plane_sub_def sdfPlane_def f3_sub_def dot_def
      min.commute min.left_commute min.assoc)

text \<open>
  C7, as the claim states it, fails: \<open>mandelbulbScene\<close> does not return \<open>0\<close> at
  \<open>(0, - 2, 0)\<close>.
\<close>

theorem mandelbulbScene_ground_point_nonzero:
  "mandelbulbScene (make_float3 0 (- 2) 0) \<noteq> 0"
proof -
  obtain m where m: "m < 0" "mandelbulb (f3_divs (make_float3 0 (- 2) 0) 2.3) 8 4 8 = Some m"
    using mandelbulb_below_ground_point by blast
  then show ?thesis
    by (simp add: mandelbulbScene_def Let_def sdfUnion_nan_def fminf_nan_def fmul_nan_def
        fminf_min sdfPlane_def f3_sub_def dot_def)
qed

text \<open>
  C7, amended. At \<open>(0, - 2, 0)\<close> the plane sub-distance is \<open>0\<close>, but the fractal estimate at
  \<open>(0, - 2, 0) / 2.3\<close> is negative: the loop runs its 8 iterations without escaping and
  leaves a radius below 1. The scene returns the fractal estimate times \<open>2.3\<close>, a
  negative distance.
\<close>

theorem mandelbulbScene_ground_point_negative:
  "\<exists>m. m < 0 \<and> mandelbulb (f3_divs (make_float3 0 (- 2) 0) 2.3) 8 4 8 = Some m
     \<and> plane_sub (make_float3 0 (- 2) 0) = 0
     \<and> mandelbulbScene (make_float3 0 (- 2) 0) = m * 2.3
     \<and> m * 2.3 < 0"
proof -
  obtain m where m: "m < 0" "mandelbulb (f3_divs (make_float3 0 (- 2) 0) 2.3) 8 4 8 = Some m"
    using mandelbulb_below_ground_point by blast
  have "mandelbulbScene (make_float3 0 (- 2) 0) = m * 2.3"
    using m by (simp add: mandelbulbScene_def Let_def sdfUnion_nan_def fminf_nan_def
        fmul_nan_def fminf_min sdfPlane_def f3_sub_def dot_def)
  then show ?thesis using m by (auto simp: plane_sub_height)
qed

text \<open>
  C9, as the claim states it, fails: \<open>(0, - 100, 0)\<close> is far outside the scaled bailout
  radius and lies under the ground plane, where the scene distance is \<open>- 98\<close>.
\<close>

theorem far_point_under_plane_negative:
  "2.3 * 4 < length3 (make_float3 0 (- 100) 0) \<and>
   mandelbulbScene (make_float3 0 (- 100) 0) = - 98"
proof -
  have len: "length3 (make_float3 0 (- 100) 0) = 100"
    by (simp add: length3_def dot_def)
  have far: "2.3 * 4 < length3 (make_float3 0 (- 100) 0)" by (simp add: len)
  have "0 < 2.3 * 0.5 * ln (100 / 2.3) * (100 / 2.3 :: real)"
    by (rule escaped_term_pos) simp
  then have "min (2.3 * 0.5 * ln (100 / 2.3) * (100 / 2.3 :: real)) (- 98) = - 98" by linarith
  then show ?thesis using mandelbulbScene_escaped(2) [OF far] far by (simp add: len)
qed

text \<open>
  C9, amended. For every point with \<open>|pos| > 2.3 * 4\<close> the loop escapes in its first
  iteration: the fractal estimate is \<open>0.5 * ln (|pos| / 2.3) * (|pos| / 2.3)\<close>, and the
  fractal term, \<open>2.3\<close> times it, is positive and strictly increasing with \<open>|pos|\<close>.
  \<open>mandelbulbScene pos\<close> is the minimum of that term and of the height \<open>y + 2\<close> above the
  ground plane.
\<close>

theorem mandelbulbScene_beyond_bailout:
  assumes far: "2.3 * 4 < length3 pos"
  shows "mandelbulb (f3_divs pos 2.3) 8 4 8 =
           Some (0.5 * ln (length3 pos / 2.3) * (length3 pos / 2.3))
    \<and> mandelbulbScene pos =
         min (2.3 * 0.5 * ln (length3 pos / 2.3) * (length3 pos / 2.3)) (fy pos + 2)
    \<and> 0 < 2.3 * 0.5 * ln (length3 pos / 2.3) * (length3 pos / 2.3)
    \<and> (\<forall>q. length3 pos < length3 q \<longrightarrow>
          2.3 * 0.5 * ln (length3 pos / 2.3) * (length3 pos / 2.3)
            < 2.3 * 0.5 * ln (length3 q / 2.3) * (length3 q / 2.3))"
proof -
  have b: "4 < length3 pos / 2.3" using far by (simp add: field_simps)
  have "\<And>q. length3 pos < length3 q \<Longrightarrow>
          2.3 * 0.5 * ln (length3 pos / 2.3) * (length3 pos / 2.3)
            < 2.3 * 0.5 * ln (length3 q / 2.3) * (length3 q / 2.3)"
    by (rule escaped_term_mono [OF b]) (simp add: divide_strict_right_mono)
  then show ?thesis
    using mandelbulbScene_escaped [OF far] escaped_term_pos [OF b] by blast
qed

theorem mandelbulbScene_beyond_bailout_witness:
  "2.3 * 4 < length3 (make_float3 10 0 0)
   \<and> length3 (make_float3 10 0 0) < length3 (make_float3 20 0 0)
   \<and> mandelbulbScene (make_float3 10 0 0) =
       min (2.3 * 0.5 * ln (10 / 2.3) * (10 / 2.3)) 2
   \<and> 2.3 * 0.5 * ln (10 / 2.3) * (10 / 2.3) < 2.3 * 0.5 * ln (20 / 2.3) * (20 / 2.3 :: real)"
proof -
  have l10: "length3 (make_float3 10 0 0) = 10" by (simp add: length3_def dot_def)
  have l20: "length3 (make_float3 20 0 0) = 20" by (simp add: length3_def dot_def)
  have far: "2.3 * 4 < length3 (make_float3 10 0 0)" by (simp add: l10)
  have lt: "length3 (make_float3 10 0 0) < length3 (make_float3 20 0 0)" by (simp add: l10 l20)
  from mandelbulbScene_beyond_bailout [OF far]
  have scene: "mandelbulbScene (make_float3 10 0 0) =
      min (2.3 * 0.5 * ln (length3 (make_float3 10 0 0) / 2.3)
            * (length3 (make_float3 10 0 0) / 2.3)) (fy (make_float3 10 0 0) + 2)"
    and mono: "\<forall>q. length3 (make_float3 10 0 0) < length3 q \<longrightarrow>
          2.3 * 0.5 * ln (length3 (make_float3 10 0 0) / 2.3) * (length3 (make_float3 10 0 0) / 2.3)
            < 2.3 * 0.5 * ln (length3 q / 2.3) * (length3 q / 2.3)"
    by blast+
  from mono lt have
    "2.3 * 0.5 * ln (length3 (make_float3 10 0 0) / 2.3) * (length3 (make_float3 10 0 0) / 2.3)
       < 2.3 * 0.5 * ln (length3 (make_float3 20 0 0) / 2.3) * (length3 (make_float3 20 0 0) / 2.3)"
    by blast
  then have "2.3 * 0.5 * ln (10 / 2.3) * (10 / 2.3) < 2.3 * 0.5 * ln (20 / 2.3) * (20 / 2.3 :: real)"
    by (simp only: l10 l20)
  moreover have "mandelbulbScene (make_float3 10 0 0) =
       min (2.3 * 0.5 * ln (10 / 2.3) * (10 / 2.3)) 2"
    using scene by (simp add: l10)
  ultimately show ?thesis using far lt by blast
qed

end
